theory Spec2Isabelle
  imports Complex_Main
begin

section \<open>JavaScript strings\<close>

text \<open>
  Strings are lists of characters.  The operations below are the ones that
  \<^verbatim>\<open>getClosestProtoVersion\<close> (src/src/index.js, lines 185-252) and the
  \<^verbatim>\<open>semver\<close> package (version 5.6, the dependency named in package.json) apply
  to them: \<^verbatim>\<open>split\<close> with a one-character separator, \<^verbatim>\<open>join\<close>,
  \<^verbatim>\<open>startsWith\<close>, \<^verbatim>\<open>replace\<close> with a string pattern (first occurrence only),
  \<^verbatim>\<open>trim\<close>, and the printing of a non-negative integer.
\<close>

fun splitOn :: "char \<Rightarrow> string \<Rightarrow> string list" where
  "splitOn c [] = [[]]"
| "splitOn c (x # xs) =
     (if x = c then [] # splitOn c xs
      else (case splitOn c xs of [] \<Rightarrow> [[x]] | w # ws \<Rightarrow> (x # w) # ws))"

fun joinWith :: "string \<Rightarrow> string list \<Rightarrow> string" where
  "joinWith sep [] = []"
| "joinWith sep [x] = x"
| "joinWith sep (x # y # ys) = x @ sep @ joinWith sep (y # ys)"

definition startsWith :: "string \<Rightarrow> string \<Rightarrow> bool" where
  "startsWith s p = (take (length p) s = p)"

fun replaceFirst :: "string \<Rightarrow> string \<Rightarrow> string \<Rightarrow> string" where
  "replaceFirst pat rep [] = (if pat = [] then rep else [])"
| "replaceFirst pat rep (x # xs) =
     (if startsWith (x # xs) pat then rep @ drop (length pat) (x # xs)
      else x # replaceFirst pat rep xs)"

definition isSpace :: "char \<Rightarrow> bool" where
  "isSpace c = (c \<in> set [CHR 0x09, CHR 0x0A, CHR 0x0B, CHR 0x0C, CHR 0x0D, CHR 0x20, CHR 0xA0])"

definition trim :: "string \<Rightarrow> string" where
  "trim s = rev (dropWhile isSpace (rev (dropWhile isSpace s)))"

definition isDigit :: "char \<Rightarrow> bool" where
  "isDigit c = (c \<in> set ''0123456789'')"

definition isLetter :: "char \<Rightarrow> bool" where
  "isLetter c = (c \<in> set ''abcdefghijklmnopqrstuvwxyzABCDEFGHIJKLMNOPQRSTUVWXYZ'')"

definition allDigits :: "string \<Rightarrow> bool" where
  \<comment> \<open>the regular expression \<^verbatim>\<open>/^[0-9]+$/\<close> (also written \<^verbatim>\<open>/^\d+$/\<close>)\<close>
  "allDigits s = (s \<noteq> [] \<and> list_all isDigit s)"

definition digitVal :: "char \<Rightarrow> nat" where
  "digitVal c = of_char c - 48"

definition natOfDigits :: "string \<Rightarrow> nat" where
  "natOfDigits s = foldl (\<lambda>a c. 10 * a + digitVal c) 0 s"

definition digitChar :: "nat \<Rightarrow> char" where
  "digitChar d = ''0123456789'' ! d"

fun showNat :: "nat \<Rightarrow> string" where
  "showNat n = (if n < 10 then [digitChar n] else showNat (n div 10) @ [digitChar (n mod 10)])"

declare showNat.simps [simp del]

fun strLess :: "string \<Rightarrow> string \<Rightarrow> bool" where
  \<comment> \<open>\<^verbatim>\<open>a < b\<close> on two strings: lexicographic on the character codes\<close>
  "strLess [] [] = False"
| "strLess [] (y # ys) = True"
| "strLess (x # xs) [] = False"
| "strLess (x # xs) (y # ys) =
     (if x = y then strLess xs ys else (of_char x :: nat) < of_char y)"

section \<open>The semver package: versions\<close>

text \<open>
  A prerelease identifier of a parsed version is a number when it is written
  with digits only and lies below \<^verbatim>\<open>MAX_SAFE_INTEGER\<close>, and a string otherwise.
\<close>

datatype preId = NumId nat | StrId string

record semver =
  major :: nat
  minor :: nat
  patch :: nat
  prerelease :: "preId list"
  build :: "string list"

definition MAX_LENGTH :: nat where
  "MAX_LENGTH = 256"

definition MAX_SAFE_INTEGER :: nat where
  "MAX_SAFE_INTEGER = 9007199254740991"

definition isIdChar :: "char \<Rightarrow> bool" where
  \<comment> \<open>the character class \<^verbatim>\<open>[a-zA-Z0-9-]\<close>\<close>
  "isIdChar c = (isDigit c \<or> isLetter c \<or> c = CHR ''-'')"

definition numericIdentifier :: "string \<Rightarrow> bool" where
  \<comment> \<open>NUMERICIDENTIFIER, \<^verbatim>\<open>0|[1-9]\d*\<close>\<close>
  "numericIdentifier s = (allDigits s \<and> (s = ''0'' \<or> hd s \<noteq> CHR ''0''))"

definition nonNumericIdentifier :: "string \<Rightarrow> bool" where
  \<comment> \<open>NONNUMERICIDENTIFIER, \<^verbatim>\<open>\d*[a-zA-Z-][a-zA-Z0-9-]*\<close>\<close>
  "nonNumericIdentifier s = (list_all isIdChar s \<and> list_ex (\<lambda>c. \<not> isDigit c) s)"

definition prereleaseIdentifier :: "string \<Rightarrow> bool" where
  "prereleaseIdentifier s = (numericIdentifier s \<or> nonNumericIdentifier s)"

definition buildIdentifier :: "string \<Rightarrow> bool" where
  \<comment> \<open>BUILDIDENTIFIER, \<^verbatim>\<open>[0-9A-Za-z-]+\<close>\<close>
  "buildIdentifier s = (s \<noteq> [] \<and> list_all isIdChar s)"

text \<open>
  The regular expression FULL,
  \<^verbatim>\<open>^v?(NUM)\.(NUM)\.(NUM)(?:-(PRE(?:\.PRE)*))?(?:\+(BUILD(?:\.BUILD)*))?$\<close>.
  No identifier contains \<^verbatim>\<open>+\<close>, and neither a number nor a dot is \<^verbatim>\<open>-\<close>, so a
  string matches exactly when the text before its first \<^verbatim>\<open>+\<close> splits at its
  first \<^verbatim>\<open>-\<close> into three dot-separated numbers and a dot-separated list of
  prerelease identifiers, and the text after that \<^verbatim>\<open>+\<close> is a dot-separated
  list of build identifiers.  The result holds the groups 1 to 5 of the match.
\<close>

definition stripV :: "string \<Rightarrow> string" where
  "stripV s = (case s of [] \<Rightarrow> [] | c # r \<Rightarrow> if c = CHR ''v'' then r else s)"

definition matchFull :: "string \<Rightarrow> (string \<times> string \<times> string \<times> string option \<times> string option) option" where
  "matchFull s =
     (let s1 = stripV s;
          body = takeWhile (\<lambda>c. c \<noteq> CHR ''+'') s1;
          rest = dropWhile (\<lambda>c. c \<noteq> CHR ''+'') s1;
          mainp = takeWhile (\<lambda>c. c \<noteq> CHR ''-'') body;
          prep = dropWhile (\<lambda>c. c \<noteq> CHR ''-'') body
      in case splitOn CHR ''.'' mainp of
           [a, b, c] \<Rightarrow>
             if numericIdentifier a \<and> numericIdentifier b \<and> numericIdentifier c
                \<and> (prep = [] \<or> list_all prereleaseIdentifier (splitOn CHR ''.'' (tl prep)))
                \<and> (rest = [] \<or> list_all buildIdentifier (splitOn CHR ''.'' (tl rest)))
             then Some (a, b, c,
                        if prep = [] then None else Some (tl prep),
                        if rest = [] then None else Some (tl rest))
             else None
         | _ \<Rightarrow> None)"

definition numberify :: "string \<Rightarrow> preId" where
  \<comment> \<open>the map over the prerelease identifiers in the SemVer constructor\<close>
  "numberify i =
     (if allDigits i \<and> natOfDigits i < MAX_SAFE_INTEGER then NumId (natOfDigits i)
      else StrId i)"

definition semverOfMatch :: "string \<times> string \<times> string \<times> string option \<times> string option \<Rightarrow> semver option" where
  \<comment> \<open>the SemVer constructor after the match; None is its TypeError\<close>
  "semverOfMatch m =
     (case m of (a, b, c, pre, bld) \<Rightarrow>
        if natOfDigits a > MAX_SAFE_INTEGER \<or> natOfDigits b > MAX_SAFE_INTEGER
           \<or> natOfDigits c > MAX_SAFE_INTEGER
        then None
        else Some \<lparr>major = natOfDigits a, minor = natOfDigits b, patch = natOfDigits c,
                   prerelease = (case pre of None \<Rightarrow> [] | Some p \<Rightarrow> map numberify (splitOn CHR ''.'' p)),
                   build = (case bld of None \<Rightarrow> [] | Some p \<Rightarrow> splitOn CHR ''.'' p)\<rparr>)"

definition semverNew :: "string \<Rightarrow> semver option" where
  \<comment> \<open>\<^verbatim>\<open>new SemVer(version)\<close> on a string; None is a thrown TypeError\<close>
  "semverNew s =
     (if length s > MAX_LENGTH then None
      else case matchFull (trim s) of None \<Rightarrow> None | Some m \<Rightarrow> semverOfMatch m)"

definition parse :: "string \<Rightarrow> semver option" where
  \<comment> \<open>\<^verbatim>\<open>semver.parse(version)\<close> on a string; None is null\<close>
  "parse s =
     (if length s > MAX_LENGTH then None
      else case matchFull s of None \<Rightarrow> None | Some m \<Rightarrow> semverNew s)"

definition showId :: "preId \<Rightarrow> string" where
  "showId i = (case i of NumId n \<Rightarrow> showNat n | StrId s \<Rightarrow> s)"

definition format :: "semver \<Rightarrow> string" where
  \<comment> \<open>\<^verbatim>\<open>SemVer.prototype.format\<close>: the build metadata is not printed\<close>
  "format v =
     showNat (major v) @ ''.'' @ showNat (minor v) @ ''.'' @ showNat (patch v)
     @ (if prerelease v = [] then [] else ''-'' @ joinWith ''.'' (map showId (prerelease v)))"

definition clean :: "string \<Rightarrow> string option" where
  \<comment> \<open>\<^verbatim>\<open>semver.clean\<close>: trim, drop leading \<^verbatim>\<open>=\<close> and \<^verbatim>\<open>v\<close>, parse, print\<close>
  "clean s =
     map_option format (parse (dropWhile (\<lambda>c. c = CHR ''='' \<or> c = CHR ''v'') (trim s)))"

section \<open>JavaScript numbers\<close>

text \<open>
  A JavaScript number is a double.  The model holds its value exactly.  It
  computes the conversion of a text written in digits (the nearest double,
  ties to the even mantissa, which ECMAScript fixes for up to 20
  significant digits), the printing of the integers from 0 to \<^verbatim>\<open>2^53\<close> (all
  their digits), and the comparison of distances between integers up to
  \<^verbatim>\<open>MAX_SAFE_INTEGER\<close>, where the subtraction involves no rounding.  What
  JavaScript and the semver package do outside that fragment is not
  computed by the model; it is a parameter, and every statement below holds
  for all values of the parameter:
  \<^item> \<^verbatim>\<open>rangeOther\<close>: \<^verbatim>\<open>new Range('<= ' + text, {includePrerelease: true})\<close> for a
    text that is not a version (None: the constructor throws);
  \<^item> \<^verbatim>\<open>numberOther\<close>: \<^verbatim>\<open>Number(text)\<close> for a text that is neither written in
    digits, with a value below \<^verbatim>\<open>10^20\<close>, nor contains a comma;
  \<^item> \<^verbatim>\<open>closerOther\<close>: \<^verbatim>\<open>Math.abs(curr - val) < Math.abs(prev - val)\<close> when
    one of the three numbers is not a safe non-negative integer;
  \<^item> \<^verbatim>\<open>stringOther\<close>: the printing of a number that is not an integer
    from 0 to \<^verbatim>\<open>2^53\<close>.
\<close>

datatype jsnum = NaN | NegInf | Fin rat | PosInf

record jslib =
  rangeOther :: "string \<Rightarrow> (semver \<Rightarrow> bool) option"
  numberOther :: "string \<Rightarrow> jsnum"
  closerOther :: "jsnum \<Rightarrow> jsnum \<Rightarrow> jsnum \<Rightarrow> bool"
  stringOther :: "jsnum \<Rightarrow> string"

definition someLib :: jslib where
  "someLib = \<lparr>rangeOther = (\<lambda>t. None), numberOther = (\<lambda>t. NaN),
               closerOther = (\<lambda>c p v. False), stringOther = (\<lambda>x. ''NaN'')\<rparr>"

definition ofNat :: "nat \<Rightarrow> jsnum" where
  "ofNat n = Fin (of_nat n)"

definition safeNat :: "jsnum \<Rightarrow> nat option" where
  "safeNat x =
     (case x of
        Fin q \<Rightarrow>
          if 0 \<le> q \<and> q \<le> of_nat MAX_SAFE_INTEGER \<and> of_int \<lfloor>q\<rfloor> = q
          then Some (nat \<lfloor>q\<rfloor>) else None
      | _ \<Rightarrow> None)"

fun bitlen :: "nat \<Rightarrow> nat" where
  \<comment> \<open>the number of binary digits\<close>
  "bitlen n = (if n = 0 then 0 else Suc (bitlen (n div 2)))"

declare bitlen.simps [simp del]

definition roundDouble :: "nat \<Rightarrow> jsnum" where
  \<comment> \<open>the double nearest to a natural number, far below the overflow threshold:
      53 binary digits are kept, and a tie goes to the even mantissa\<close>
  "roundDouble n =
     (if n \<le> MAX_SAFE_INTEGER then ofNat n
      else (let e = bitlen n - 53;
                q = n div 2 ^ e;
                r = n mod 2 ^ e;
                h = 2 ^ e div 2
            in if h < r \<or> (r = h \<and> odd q) then ofNat (Suc q * 2 ^ e) else ofNat (q * 2 ^ e)))"

definition toNumber :: "jslib \<Rightarrow> string \<Rightarrow> jsnum" where
  \<comment> \<open>\<^verbatim>\<open>Number(s)\<close> on a string, also the unary \<^verbatim>\<open>+s\<close>\<close>
  "toNumber lib s =
     (if allDigits s \<and> natOfDigits s < 100000000000000000000 then roundDouble (natOfDigits s)
      else if CHR '','' \<in> set s then NaN
      else numberOther lib s)"

fun jsLe :: "jsnum \<Rightarrow> jsnum \<Rightarrow> bool" where
  \<comment> \<open>\<^verbatim>\<open>a <= b\<close> on numbers\<close>
  "jsLe NaN b = False"
| "jsLe a NaN = False"
| "jsLe NegInf b = True"
| "jsLe a PosInf = True"
| "jsLe (Fin x) (Fin y) = (x \<le> y)"
| "jsLe a b = False"

fun jsLess :: "jsnum \<Rightarrow> jsnum \<Rightarrow> bool" where
  \<comment> \<open>\<^verbatim>\<open>a < b\<close> on numbers\<close>
  "jsLess NaN b = False"
| "jsLess a NaN = False"
| "jsLess (Fin x) (Fin y) = (x < y)"
| "jsLess NegInf NegInf = False"
| "jsLess PosInf PosInf = False"
| "jsLess NegInf b = True"
| "jsLess a PosInf = True"
| "jsLess a b = False"

definition jsEq :: "jsnum \<Rightarrow> jsnum \<Rightarrow> bool" where
  \<comment> \<open>\<^verbatim>\<open>a === b\<close> on numbers\<close>
  "jsEq a b = (a \<noteq> NaN \<and> a = b)"

definition wholeNat :: "jsnum \<Rightarrow> nat option" where
  \<comment> \<open>the integer from 0 to \<^verbatim>\<open>2^53\<close> that a number is\<close>
  "wholeNat x =
     (case x of
        Fin q \<Rightarrow>
          if 0 \<le> q \<and> q \<le> of_nat (Suc MAX_SAFE_INTEGER) \<and> of_int \<lfloor>q\<rfloor> = q
          then Some (nat \<lfloor>q\<rfloor>) else None
      | _ \<Rightarrow> None)"

definition numToString :: "jslib \<Rightarrow> jsnum \<Rightarrow> string" where
  "numToString lib x = (case wholeNat x of Some n \<Rightarrow> showNat n | None \<Rightarrow> stringOther lib x)"

definition closer :: "jslib \<Rightarrow> jsnum \<Rightarrow> jsnum \<Rightarrow> jsnum \<Rightarrow> bool" where
  \<comment> \<open>\<^verbatim>\<open>Math.abs(curr - val) < Math.abs(prev - val)\<close>\<close>
  "closer lib cur prv val =
     (case (safeNat cur, safeNat prv, safeNat val) of
        (Some c, Some p, Some v) \<Rightarrow> \<bar>int c - int v\<bar> < \<bar>int p - int v\<bar>
      | _ \<Rightarrow> closerOther lib cur prv val)"

section \<open>The semver package: comparison and maxSatisfying\<close>

definition isNumeric :: "preId \<Rightarrow> bool" where
  \<comment> \<open>\<^verbatim>\<open>/^[0-9]+$/.test(a)\<close>\<close>
  "isNumeric i = (case i of NumId n \<Rightarrow> True | StrId s \<Rightarrow> allDigits s)"

definition idNumber :: "jslib \<Rightarrow> preId \<Rightarrow> jsnum" where
  \<comment> \<open>\<^verbatim>\<open>+a\<close>\<close>
  "idNumber lib i = (case i of NumId n \<Rightarrow> ofNat n | StrId s \<Rightarrow> toNumber lib s)"

definition compareIdentifiers :: "jslib \<Rightarrow> preId \<Rightarrow> preId \<Rightarrow> int" where
  "compareIdentifiers lib a b =
     (let anum = isNumeric a; bnum = isNumeric b in
      if anum \<and> bnum
      then (if jsEq (idNumber lib a) (idNumber lib b) then 0
            else if jsLess (idNumber lib a) (idNumber lib b) then - 1 else 1)
      else if a = b then 0
      else if anum \<and> \<not> bnum then - 1
      else if bnum \<and> \<not> anum then 1
      else if strLess (showId a) (showId b) then - 1 else 1)"

definition cmpNat :: "nat \<Rightarrow> nat \<Rightarrow> int" where
  \<comment> \<open>compareIdentifiers on two numbers\<close>
  "cmpNat a b = (if a = b then 0 else if a < b then - 1 else 1)"

definition compareMain :: "semver \<Rightarrow> semver \<Rightarrow> int" where
  "compareMain a b =
     (if cmpNat (major a) (major b) \<noteq> 0 then cmpNat (major a) (major b)
      else if cmpNat (minor a) (minor b) \<noteq> 0 then cmpNat (minor a) (minor b)
      else cmpNat (patch a) (patch b))"

fun comparePreLoop :: "jslib \<Rightarrow> preId list \<Rightarrow> preId list \<Rightarrow> int" where
  "comparePreLoop lib [] [] = 0"
| "comparePreLoop lib (a # as) [] = 1"
| "comparePreLoop lib [] (b # bs) = - 1"
| "comparePreLoop lib (a # as) (b # bs) =
     (if a = b then comparePreLoop lib as bs else compareIdentifiers lib a b)"

definition comparePre :: "jslib \<Rightarrow> preId list \<Rightarrow> preId list \<Rightarrow> int" where
  "comparePre lib as bs =
     (if as \<noteq> [] \<and> bs = [] then - 1
      else if as = [] \<and> bs \<noteq> [] then 1
      else if as = [] \<and> bs = [] then 0
      else comparePreLoop lib as bs)"

definition compare :: "jslib \<Rightarrow> semver \<Rightarrow> semver \<Rightarrow> int" where
  \<comment> \<open>\<^verbatim>\<open>SemVer.prototype.compare\<close>, \<^verbatim>\<open>this.compareMain(other) || this.comparePre(other)\<close>\<close>
  "compare lib a b =
     (if compareMain a b \<noteq> 0 then compareMain a b
      else comparePre lib (prerelease a) (prerelease b))"

text \<open>
  \<^verbatim>\<open>new Range('<= ' + version, {includePrerelease: true})\<close>.  When the text is a
  version (it matches FULL), none of the rewriting steps of the constructor
  changes it, the only comparator is \<^verbatim>\<open><=\<close> with that version, and the
  constructor throws when the SemVer constructor does.  The result is the
  test of the range, None when the constructor throws.
\<close>

definition rangeLE :: "jslib \<Rightarrow> string \<Rightarrow> (semver \<Rightarrow> bool) option" where
  "rangeLE lib version =
     (case matchFull version of
        None \<Rightarrow> rangeOther lib version
      | Some m \<Rightarrow>
          (case semverNew version of
             None \<Rightarrow> None
           | Some nv \<Rightarrow> Some (\<lambda>sv. compare lib sv nv \<le> 0)))"

datatype error = TypeError

fun maxLoop :: "jslib \<Rightarrow> (semver \<Rightarrow> bool) \<Rightarrow> (string \<times> semver) option \<Rightarrow> string list \<Rightarrow> error + string option" where
  \<comment> \<open>the \<^verbatim>\<open>forEach\<close> of maxSatisfying; the accumulator is \<^verbatim>\<open>max\<close> with \<^verbatim>\<open>maxSV\<close>;
      \<^verbatim>\<open>Range.prototype.test\<close> is false on the empty string\<close>
  "maxLoop lib test mx [] = Inr (map_option fst mx)"
| "maxLoop lib test mx (v # vs) =
     (if v = [] then maxLoop lib test mx vs
      else case semverNew v of
        None \<Rightarrow> Inl TypeError
      | Some sv \<Rightarrow>
          if test sv \<and> (case mx of None \<Rightarrow> True | Some (m, msv) \<Rightarrow> compare lib msv sv = - 1)
          then maxLoop lib test (Some (v, sv)) vs
          else maxLoop lib test mx vs)"

definition maxSatisfying :: "jslib \<Rightarrow> string list \<Rightarrow> string \<Rightarrow> error + string option" where
  \<comment> \<open>\<^verbatim>\<open>semver.maxSatisfying(versions, '<= ' + version, {includePrerelease: true})\<close>\<close>
  "maxSatisfying lib versions version =
     (case rangeLE lib version of
        None \<Rightarrow> Inr None
      | Some test \<Rightarrow> maxLoop lib test None versions)"

section \<open>getClosestProtoVersion\<close>

text \<open>
  \<^verbatim>\<open>closestLower(arr, val)\<close>, lines 257-265: the numbers not above the target,
  then a \<^verbatim>\<open>reduce\<close> without initial value that keeps the earlier number on a
  tie.  None is \<^verbatim>\<open>null\<close>.
\<close>

definition closestLower :: "jslib \<Rightarrow> jsnum list \<Rightarrow> jsnum \<Rightarrow> jsnum option" where
  "closestLower lib arr val =
     (case filter (\<lambda>v. jsLe v val) arr of
        [] \<Rightarrow> None
      | x # xs \<Rightarrow> Some (foldl (\<lambda>prv cur. if closer lib cur prv val then cur else prv) x xs))"

text \<open>
  Lines 187-224: the version text that the search uses, the number that
  \<^verbatim>\<open>parse.build\<close> stands for when \<^verbatim>\<open>parse\<close> is set and its build list is not
  empty, and whether the warning of the \<^verbatim>\<open>catch\<close> block was printed.  An array
  used as a number is joined with commas and converted.
\<close>

record normalized =
  nversion :: string
  nbuild :: "jsnum option"
  nwarned :: bool

definition buildTarget :: "jslib \<Rightarrow> string list \<Rightarrow> jsnum option" where
  "buildTarget lib bs = (if bs = [] then None else Some (toNumber lib (joinWith '','' bs)))"

definition normalizeVersion :: "jslib \<Rightarrow> string \<Rightarrow> normalized" where
  "normalizeVersion lib versionString =
     (case splitOn CHR '' '' versionString of
        [] \<Rightarrow> \<lparr>nversion = [], nbuild = None, nwarned = True\<rparr>
      | [version] \<Rightarrow> \<lparr>nversion = version, nbuild = None, nwarned = True\<rparr>
      | version # commitString # _ \<Rightarrow>
          (case clean (replaceFirst ''commit='' [] commitString) of
             None \<Rightarrow> \<lparr>nversion = version, nbuild = None, nwarned = True\<rparr>
           | Some fullversionsemver \<Rightarrow>
               (let version' = joinWith ''-'' (take 3 (splitOn CHR ''-'' fullversionsemver)) in
                case parse version' of
                  None \<Rightarrow> \<lparr>nversion = version', nbuild = None, nwarned = True\<rparr>
                | Some p \<Rightarrow>
                    (case prerelease p of
                       [] \<Rightarrow> \<lparr>nversion = version', nbuild = buildTarget lib (build p), nwarned = True\<rparr>
                     | NumId k # _ \<Rightarrow>
                         \<lparr>nversion = version', nbuild = buildTarget lib (build p), nwarned = True\<rparr>
                     | StrId s # _ \<Rightarrow>
                         (let pre = filter (\<lambda>t. t \<noteq> ''beta'') (splitOn CHR ''-'' s) in
                          if (case pre of [] \<Rightarrow> False | t # _ \<Rightarrow> allDigits t)
                          then \<lparr>nversion = format (p\<lparr>prerelease := []\<rparr>),
                                nbuild = Some (toNumber lib (joinWith '','' pre)),
                                nwarned = False\<rparr>
                          else \<lparr>nversion = format (p\<lparr>prerelease := map StrId pre\<rparr>),
                                nbuild = buildTarget lib (build p),
                                nwarned = False\<rparr>)))))"

fun formatAll :: "string list \<Rightarrow> error + string list" where
  \<comment> \<open>line 230, \<^verbatim>\<open>versions.map(v => semver.parse(v).format())\<close>\<close>
  "formatAll [] = Inr []"
| "formatAll (v # vs) =
     (case parse v of
        None \<Rightarrow> Inl TypeError
      | Some sv \<Rightarrow> (case formatAll vs of Inl e \<Rightarrow> Inl e | Inr r \<Rightarrow> Inr (format sv # r)))"

definition primaryMatch :: "jslib \<Rightarrow> string \<Rightarrow> string list \<Rightarrow> error + string option" where
  \<comment> \<open>lines 229-236\<close>
  "primaryMatch lib version versions =
     (case formatAll versions of
        Inl e \<Rightarrow> Inl e
      | Inr filteredVersions \<Rightarrow> maxSatisfying lib filteredVersions version)"

definition buildNumbers :: "jslib \<Rightarrow> string \<Rightarrow> string list \<Rightarrow> jsnum list" where
  \<comment> \<open>lines 240 and 242\<close>
  "buildNumbers lib version versions =
     map (\<lambda>v. case splitOn CHR ''+'' v of a # b # r \<Rightarrow> toNumber lib b | _ \<Rightarrow> NaN)
         (filter (\<lambda>v. startsWith v (version @ ''+'')) versions)"

definition getClosestProtoVersion :: "jslib \<Rightarrow> string \<Rightarrow> string list \<Rightarrow> error + string option" where
  "getClosestProtoVersion lib versionString versions =
     (let n = normalizeVersion lib versionString; version = nversion n in
      case primaryMatch lib version versions of
        Inl e \<Rightarrow> Inl e
      | Inr match \<Rightarrow>
          (case nbuild n of
             None \<Rightarrow> Inr match
           | Some val \<Rightarrow>
               (case closestLower lib (buildNumbers lib version versions) val of
                  None \<Rightarrow> Inr match
                | Some closestMatch \<Rightarrow>
                    if jsLess (ofNat 0) closestMatch
                    then Inr (Some (version @ ''+'' @ numToString lib closestMatch))
                    else Inr match)))"

section \<open>Notions of the specification\<close>

text \<open>
  The definitions of this section do not come from the code: they state
  what the specification talks about, for comparison with the code.

  The closest value at most the target, \<^verbatim>\<open>closestAtMost(values, target)\<close>: the
  maximum of the values that are not above the target.
\<close>

definition closestAtMost :: "nat list \<Rightarrow> nat \<Rightarrow> nat option" where
  "closestAtMost values target =
     (case filter (\<lambda>b. b \<le> target) values of
        [] \<Rightarrow> None
      | b # r \<Rightarrow> Some (Max (set (b # r))))"












section \<open>Evaluation on concrete inputs\<close>

lemmas string_defs =
  startsWith_def trim_def isSpace_def isDigit_def isLetter_def allDigits_def digitVal_def
  natOfDigits_def digitChar_def showNat.simps

lemmas version_defs =
  MAX_LENGTH_def MAX_SAFE_INTEGER_def isIdChar_def numericIdentifier_def
  nonNumericIdentifier_def prereleaseIdentifier_def buildIdentifier_def stripV_def
  matchFull_def numberify_def semverOfMatch_def semverNew_def parse_def showId_def
  format_def clean_def

lemmas number_defs =
  ofNat_def safeNat_def bitlen.simps roundDouble_def toNumber_def jsEq_def wholeNat_def
  numToString_def closer_def

lemmas compare_defs =
  isNumeric_def idNumber_def compareIdentifiers_def cmpNat_def compareMain_def
  comparePre_def compare_def rangeLE_def maxSatisfying_def

lemmas resolver_defs =
  closestLower_def buildTarget_def normalizeVersion_def primaryMatch_def buildNumbers_def
  getClosestProtoVersion_def

lemmas model_defs = string_defs version_defs number_defs compare_defs resolver_defs

section \<open>Decimal numerals\<close>

lemma digitChar_digitVal: "isDigit c \<Longrightarrow> digitChar (digitVal c) = c"
  by (auto simp: isDigit_def digitChar_def digitVal_def)

lemma digitVal_less: "isDigit c \<Longrightarrow> digitVal c < 10"
  by (auto simp: isDigit_def digitVal_def)

lemma digit_cases: "d < 10 \<Longrightarrow> d \<in> {0, 1, 2, 3, 4, 5, 6, 7, 8, 9::nat}"
  by auto

lemma isDigit_digitChar: "d < 10 \<Longrightarrow> isDigit (digitChar d)"
  by (drule digit_cases) (auto simp: isDigit_def digitChar_def)

lemma digitVal_digitChar: "d < 10 \<Longrightarrow> digitVal (digitChar d) = d"
  by (drule digit_cases) (auto simp: digitVal_def digitChar_def)

lemma natOfDigits_snoc: "natOfDigits (xs @ [c]) = 10 * natOfDigits xs + digitVal c"
  by (simp add: natOfDigits_def)

lemma showNat_digits: "list_all isDigit (showNat n)"
proof (induction n rule: showNat.induct)
  case (1 n)
  show ?case
  proof (cases "n < 10")
    case True
    then show ?thesis by (subst showNat.simps) (simp add: isDigit_digitChar)
  next
    case False
    with 1 show ?thesis by (subst showNat.simps) (simp add: isDigit_digitChar)
  qed
qed

lemma showNat_not_Nil: "showNat n \<noteq> []"
  by (subst showNat.simps) simp

lemma natOfDigits_showNat: "natOfDigits (showNat n) = n"
proof (induction n rule: showNat.induct)
  case (1 n)
  show ?case
  proof (cases "n < 10")
    case True
    then show ?thesis
      by (subst showNat.simps) (simp add: natOfDigits_def digitVal_digitChar)
  next
    case False
    with 1 show ?thesis
      by (subst showNat.simps) (simp add: natOfDigits_snoc digitVal_digitChar)
  qed
qed

lemma natOfDigits_pos:
  "xs \<noteq> [] \<Longrightarrow> list_all isDigit xs \<Longrightarrow> hd xs \<noteq> CHR ''0'' \<Longrightarrow> 0 < natOfDigits xs"
proof (induction xs rule: rev_induct)
  case Nil
  then show ?case by simp
next
  case (snoc c xs)
  show ?case
  proof (cases "xs = []")
    case True
    with snoc.prems show ?thesis
      by (auto simp: natOfDigits_def isDigit_def digitVal_def)
  next
    case False
    with snoc show ?thesis by (simp add: natOfDigits_snoc)
  qed
qed

lemma showNat_natOfDigits:
  "numericIdentifier d \<Longrightarrow> showNat (natOfDigits d) = d"
proof (induction d rule: rev_induct)
  case Nil
  then show ?case by (simp add: numericIdentifier_def allDigits_def)
next
  case (snoc c xs)
  from snoc.prems have dc: "isDigit c" and dx: "list_all isDigit xs"
    by (simp_all add: numericIdentifier_def allDigits_def)
  show ?case
  proof (cases "xs = []")
    case True
    with dc show ?thesis
      by (subst showNat.simps) (simp add: natOfDigits_def digitVal_less digitChar_digitVal)
  next
    case False
    with snoc.prems have h: "hd xs \<noteq> CHR ''0''"
      by (cases xs) (auto simp: numericIdentifier_def)
    with False dx have nx: "numericIdentifier xs"
      by (simp add: numericIdentifier_def allDigits_def)
    from False dx h have pos: "0 < natOfDigits xs" by (rule natOfDigits_pos)
    have v: "digitVal c < 10" using dc by (rule digitVal_less)
    from pos v have big: "\<not> natOfDigits (xs @ [c]) < 10"
      by (simp add: natOfDigits_snoc)
    from v have q: "natOfDigits (xs @ [c]) div 10 = natOfDigits xs"
      and r: "natOfDigits (xs @ [c]) mod 10 = digitVal c"
      by (simp_all add: natOfDigits_snoc)
    show ?thesis
      by (subst showNat.simps) (simp add: big q r snoc.IH [OF nx] digitChar_digitVal dc)
  qed
qed

lemma natOfDigits_zero_string: "natOfDigits ''0'' = 0"
  by (simp add: natOfDigits_def digitVal_def)

lemma showNat_leading:
  "showNat n = ''0'' \<or> hd (showNat n) \<noteq> CHR ''0''"
proof (induction n rule: showNat.induct)
  case (1 n)
  show ?case
  proof (cases "n < 10")
    case True
    then have s: "showNat n = [digitChar n]" by (subst showNat.simps) simp
    from True have "n \<in> {0, 1, 2, 3, 4, 5, 6, 7, 8, 9::nat}" by (rule digit_cases)
    then show ?thesis unfolding s by (auto simp: digitChar_def)
  next
    case False
    then have s: "showNat n = showNat (n div 10) @ [digitChar (n mod 10)]"
      by (subst showNat.simps) simp
    from False have nz: "n div 10 \<noteq> 0" by simp
    have "showNat (n div 10) \<noteq> ''0''"
    proof
      assume "showNat (n div 10) = ''0''"
      then have "natOfDigits (showNat (n div 10)) = 0"
        by (simp add: natOfDigits_zero_string)
      with nz show False by (simp add: natOfDigits_showNat)
    qed
    with 1 False have "hd (showNat (n div 10)) \<noteq> CHR ''0''" by simp
    then show ?thesis unfolding s by (simp add: showNat_not_Nil)
  qed
qed

lemma numericIdentifier_showNat: "numericIdentifier (showNat n)"
  using showNat_digits [of n] showNat_not_Nil [of n] showNat_leading [of n]
  by (simp add: numericIdentifier_def allDigits_def)

section \<open>Splitting and joining\<close>

lemma splitOn_not_Nil: "splitOn c s \<noteq> []"
  by (induction s) (auto split: list.splits)

lemma splitOn_absent: "c \<notin> set s \<Longrightarrow> splitOn c s = [s]"
  by (induction s) auto

lemma splitOn_append_sep:
  "c \<notin> set a \<Longrightarrow> splitOn c (a @ c # b) = a # splitOn c b"
  by (induction a) auto


lemma joinWith_splitOn: "joinWith [c] (splitOn c s) = s"
proof (induction s)
  case Nil
  then show ?case by simp
next
  case (Cons x xs)
  obtain u us where sp: "splitOn c xs = u # us"
    using splitOn_not_Nil [of c xs] by (cases "splitOn c xs") auto
  show ?case
  proof (cases "x = c")
    case True
    with Cons sp show ?thesis by simp
  next
    case False
    with Cons sp show ?thesis by (cases us) simp_all
  qed
qed

lemma splitOn_joinWith:
  "ws \<noteq> [] \<Longrightarrow> \<forall>w\<in>set ws. c \<notin> set w \<Longrightarrow> splitOn c (joinWith [c] ws) = ws"
proof (induction ws)
  case Nil
  then show ?case by simp
next
  case (Cons w ws)
  show ?case
  proof (cases ws)
    assume "ws = []"
    with Cons.prems show ?thesis by (simp add: splitOn_absent)
  next
    fix y ys
    assume ws: "ws = y # ys"
    with Cons.IH Cons.prems have "splitOn c (joinWith [c] ws) = ws" by simp
    with ws Cons.prems show ?thesis by (simp add: splitOn_append_sep)
  qed
qed

lemma set_joinWith:
  "set (joinWith sep ws) \<subseteq> set sep \<union> \<Union> (set ` set ws)"
  by (induction sep ws rule: joinWith.induct) auto

lemma trim_noSpace: "\<forall>c\<in>set s. \<not> isSpace c \<Longrightarrow> trim s = s"
proof -
  assume a: "\<forall>c\<in>set s. \<not> isSpace c"
  then have 1: "dropWhile isSpace s = s" by (cases s) auto
  from a have 2: "dropWhile isSpace (rev s) = rev s" by (cases "rev s") auto
  show ?thesis by (simp add: trim_def 1 2)
qed

section \<open>The version parser\<close>

lemma dropWhile_neq_cases:
  "dropWhile (\<lambda>x. x \<noteq> c) s = [] \<or>
   dropWhile (\<lambda>x. x \<noteq> c) s = c # tl (dropWhile (\<lambda>x. x \<noteq> c) s)"
proof (cases "dropWhile (\<lambda>x. x \<noteq> c) s")
  case Nil
  then show ?thesis by simp
next
  case (Cons y ys)
  then have "dropWhile (\<lambda>x. x \<noteq> c) s \<noteq> []" by simp
  then have "\<not> hd (dropWhile (\<lambda>x. x \<noteq> c) s) \<noteq> c" by (rule hd_dropWhile)
  with Cons show ?thesis by simp
qed

lemma matchFull_SomeD:
  assumes m: "matchFull s = Some (a, b, c, pre, bld)"
  shows "stripV s = a @ ''.'' @ b @ ''.'' @ c
           @ (case pre of None \<Rightarrow> [] | Some p \<Rightarrow> CHR ''-'' # p)
           @ (case bld of None \<Rightarrow> [] | Some q \<Rightarrow> CHR ''+'' # q)
         \<and> numericIdentifier a \<and> numericIdentifier b \<and> numericIdentifier c
         \<and> (case pre of None \<Rightarrow> True | Some p \<Rightarrow> list_all prereleaseIdentifier (splitOn CHR ''.'' p))
         \<and> (case bld of None \<Rightarrow> True | Some q \<Rightarrow> list_all buildIdentifier (splitOn CHR ''.'' q))"
proof -
  define body where "body = takeWhile (\<lambda>x. x \<noteq> CHR ''+'') (stripV s)"
  define rest where "rest = dropWhile (\<lambda>x. x \<noteq> CHR ''+'') (stripV s)"
  define mainp where "mainp = takeWhile (\<lambda>x. x \<noteq> CHR ''-'') body"
  define prep where "prep = dropWhile (\<lambda>x. x \<noteq> CHR ''-'') body"
  have mb: "mainp @ prep = body" by (simp add: mainp_def prep_def)
  have br: "body @ rest = stripV s" by (simp add: body_def rest_def)
  have whole: "stripV s = mainp @ prep @ rest"
    using mb br by (metis append_assoc)
  from m have sp: "splitOn CHR ''.'' mainp = [a, b, c]"
    and ids: "numericIdentifier a \<and> numericIdentifier b \<and> numericIdentifier c"
    and p1: "prep = [] \<or> list_all prereleaseIdentifier (splitOn CHR ''.'' (tl prep))"
    and r1: "rest = [] \<or> list_all buildIdentifier (splitOn CHR ''.'' (tl rest))"
    and pre: "pre = (if prep = [] then None else Some (tl prep))"
    and bld: "bld = (if rest = [] then None else Some (tl rest))"
    unfolding matchFull_def Let_def body_def rest_def mainp_def prep_def
    by (auto split: list.splits if_splits)
  have "joinWith ''.'' (splitOn CHR ''.'' mainp) = mainp" by (rule joinWith_splitOn)
  with sp have mp: "mainp = a @ ''.'' @ b @ ''.'' @ c" by simp
  have pc: "prep = [] \<or> prep = CHR ''-'' # tl prep"
    unfolding prep_def by (rule dropWhile_neq_cases)
  have rc: "rest = [] \<or> rest = CHR ''+'' # tl rest"
    unfolding rest_def by (rule dropWhile_neq_cases)
  have e1: "prep = (case pre of None \<Rightarrow> [] | Some p \<Rightarrow> CHR ''-'' # p)"
    using pc pre by auto
  have e2: "rest = (case bld of None \<Rightarrow> [] | Some q \<Rightarrow> CHR ''+'' # q)"
    using rc bld by auto
  have v1: "case pre of None \<Rightarrow> True | Some p \<Rightarrow> list_all prereleaseIdentifier (splitOn CHR ''.'' p)"
    using p1 pre by auto
  have v2: "case bld of None \<Rightarrow> True | Some q \<Rightarrow> list_all buildIdentifier (splitOn CHR ''.'' q)"
    using r1 bld by auto
  from whole mp e1 e2 ids v1 v2 show ?thesis by simp
qed

lemma isDigit_not_special:
  "isDigit x \<Longrightarrow> x \<noteq> CHR ''.'' \<and> x \<noteq> CHR ''-'' \<and> x \<noteq> CHR ''+'' \<and> x \<noteq> CHR ''v'' \<and> \<not> isSpace x"
  by (auto simp: isDigit_def isSpace_def)

lemma isIdChar_not_special:
  "isIdChar x \<Longrightarrow> x \<noteq> CHR ''.'' \<and> x \<noteq> CHR ''+'' \<and> x \<noteq> CHR '' '' \<and> \<not> isSpace x"
  by (auto simp: isIdChar_def isDigit_def isLetter_def isSpace_def)


lemma prereleaseIdentifier_chars:
  "prereleaseIdentifier i \<Longrightarrow> i \<noteq> [] \<and> list_all isIdChar i"
  by (auto simp: prereleaseIdentifier_def numericIdentifier_def nonNumericIdentifier_def
      allDigits_def isIdChar_def list_all_iff list_ex_iff)

lemma dotted_chars:
  assumes "\<forall>w\<in>set (splitOn CHR ''.'' p). list_all isIdChar w"
  shows "\<forall>x\<in>set p. isIdChar x \<or> x = CHR ''.''"
proof
  fix x
  assume "x \<in> set p"
  then have "x \<in> set (joinWith ''.'' (splitOn CHR ''.'' p))"
    by (simp add: joinWith_splitOn)
  with set_joinWith [of "''.''" "splitOn CHR ''.'' p"]
  have "x = CHR ''.'' \<or> (\<exists>w\<in>set (splitOn CHR ''.'' p). x \<in> set w)" by auto
  with assms show "isIdChar x \<or> x = CHR ''.''" by (auto simp: list_all_iff)
qed

lemma numericIdentifier_idChar: "numericIdentifier a \<Longrightarrow> x \<in> set a \<Longrightarrow> isIdChar x"
  by (simp add: numericIdentifier_def allDigits_def list_all_iff isIdChar_def)

lemma prereleaseIdentifier_idChar: "prereleaseIdentifier i \<Longrightarrow> x \<in> set i \<Longrightarrow> isIdChar x"
  using prereleaseIdentifier_chars [of i] by (simp add: list_all_iff)

lemma buildIdentifier_idChar: "buildIdentifier i \<Longrightarrow> x \<in> set i \<Longrightarrow> isIdChar x"
  by (simp add: buildIdentifier_def list_all_iff)

lemma prerelease_chars:
  assumes "list_all prereleaseIdentifier (splitOn CHR ''.'' p)"
  shows "\<forall>x\<in>set p. isIdChar x \<or> x = CHR ''.''"
proof (rule dotted_chars, rule ballI)
  fix w
  assume "w \<in> set (splitOn CHR ''.'' p)"
  with assms have "prereleaseIdentifier w" by (simp add: list_all_iff)
  then show "list_all isIdChar w" by (simp add: prereleaseIdentifier_chars)
qed

lemma build_chars:
  assumes "list_all buildIdentifier (splitOn CHR ''.'' q)"
  shows "\<forall>x\<in>set q. isIdChar x \<or> x = CHR ''.''"
proof (rule dotted_chars, rule ballI)
  fix w
  assume "w \<in> set (splitOn CHR ''.'' q)"
  with assms have "buildIdentifier w" by (simp add: list_all_iff)
  then show "list_all isIdChar w" by (simp add: buildIdentifier_def)
qed

lemma canonical_chars:
  assumes "numericIdentifier a" "numericIdentifier b" "numericIdentifier c"
    and "case pre of None \<Rightarrow> True | Some p \<Rightarrow> list_all prereleaseIdentifier (splitOn CHR ''.'' p)"
  shows "\<forall>x\<in>set (a @ ''.'' @ b @ ''.'' @ c @ (case pre of None \<Rightarrow> [] | Some p \<Rightarrow> CHR ''-'' # p)).
           isIdChar x \<or> x = CHR ''.''"
proof -
  have da: "\<forall>x\<in>set a. isIdChar x" using assms(1) by (simp add: numericIdentifier_idChar)
  have db: "\<forall>x\<in>set b. isIdChar x" using assms(2) by (simp add: numericIdentifier_idChar)
  have dc: "\<forall>x\<in>set c. isIdChar x" using assms(3) by (simp add: numericIdentifier_idChar)
  have dp: "\<forall>x\<in>set (case pre of None \<Rightarrow> [] | Some p \<Rightarrow> CHR ''-'' # p). isIdChar x \<or> x = CHR ''.''"
  proof (cases pre)
    case None
    then show ?thesis by simp
  next
    case (Some p)
    with assms(4) have "list_all prereleaseIdentifier (splitOn CHR ''.'' p)" by simp
    then have "\<forall>x\<in>set p. isIdChar x \<or> x = CHR ''.''" by (rule prerelease_chars)
    with Some show ?thesis by (simp add: isIdChar_def)
  qed
  from da db dc dp show ?thesis by (simp add: ball_Un)
qed

lemma matchFull_chars:
  assumes "matchFull s = Some m"
  shows "\<forall>x\<in>set s. isIdChar x \<or> x = CHR ''.'' \<or> x = CHR ''+''"
proof -
  obtain a b c pre bld where m: "m = (a, b, c, pre, bld)" by (cases m) auto
  note d = matchFull_SomeD [OF assms [unfolded m]]
  from d have can: "\<forall>x\<in>set (a @ ''.'' @ b @ ''.'' @ c @ (case pre of None \<Rightarrow> [] | Some p \<Rightarrow> CHR ''-'' # p)).
           isIdChar x \<or> x = CHR ''.''"
    by (intro canonical_chars) simp_all
  have bl: "\<forall>x\<in>set (case bld of None \<Rightarrow> [] | Some q \<Rightarrow> CHR ''+'' # q).
           isIdChar x \<or> x = CHR ''.'' \<or> x = CHR ''+''"
  proof (cases bld)
    case None
    then show ?thesis by simp
  next
    case (Some q)
    with d have "list_all buildIdentifier (splitOn CHR ''.'' q)" by simp
    then have "\<forall>x\<in>set q. isIdChar x \<or> x = CHR ''.''" by (rule build_chars)
    with Some show ?thesis by auto
  qed
  from d have st: "stripV s = (a @ ''.'' @ b @ ''.'' @ c @ (case pre of None \<Rightarrow> [] | Some p \<Rightarrow> CHR ''-'' # p))
       @ (case bld of None \<Rightarrow> [] | Some q \<Rightarrow> CHR ''+'' # q)" by simp
  have sv: "\<forall>x\<in>set (stripV s). isIdChar x \<or> x = CHR ''.'' \<or> x = CHR ''+''"
    unfolding st using can bl by (simp only: set_append ball_Un) blast
  have "s = stripV s \<or> s = CHR ''v'' # stripV s"
    by (cases s) (auto simp: stripV_def)
  then show ?thesis
  proof
    assume "s = stripV s"
    with sv show ?thesis by simp
  next
    assume e: "s = CHR ''v'' # stripV s"
    have "isIdChar CHR ''v''" by (simp add: isIdChar_def isLetter_def)
    with sv show ?thesis by (subst e) simp
  qed
qed

lemma matchFull_noSpace:
  assumes "matchFull s = Some m"
  shows "\<forall>x\<in>set s. \<not> isSpace x"
proof
  fix x
  assume "x \<in> set s"
  with matchFull_chars [OF assms] have "isIdChar x \<or> x = CHR ''.'' \<or> x = CHR ''+''"
    by simp
  moreover have "\<not> isSpace CHR ''.''" "\<not> isSpace CHR ''+''"
    by (simp_all add: isSpace_def)
  ultimately show "\<not> isSpace x"
    using isIdChar_not_special [of x] by blast
qed

lemma semverNew_eq_parse: "\<forall>x\<in>set s. \<not> isSpace x \<Longrightarrow> semverNew s = parse s"
  by (simp add: parse_def semverNew_def trim_noSpace split: option.splits)

lemma parse_SomeD:
  assumes "parse s = Some sv"
  shows "length s \<le> MAX_LENGTH \<and> (\<exists>m. matchFull s = Some m \<and> semverOfMatch m = Some sv)"
proof -
  from assms have l: "length s \<le> MAX_LENGTH"
    by (auto simp: parse_def split: if_splits)
  from assms l obtain m where m: "matchFull s = Some m" and n: "semverNew s = Some sv"
    by (auto simp: parse_def split: option.splits)
  from m have "trim s = s" by (intro trim_noSpace matchFull_noSpace)
  with n m l have "semverOfMatch m = Some sv" by (simp add: semverNew_def)
  with l m show ?thesis by simp
qed

lemma parse_SomeI:
  "length s \<le> MAX_LENGTH \<Longrightarrow> matchFull s = Some m \<Longrightarrow> semverOfMatch m = Some sv \<Longrightarrow>
   parse s = Some sv"
  by (simp add: parse_def semverNew_def trim_noSpace matchFull_noSpace)

lemma takeWhile_all: "\<forall>x\<in>set xs. P x \<Longrightarrow> takeWhile P xs = xs"
  by (induction xs) auto

lemma dropWhile_all: "\<forall>x\<in>set xs. P x \<Longrightarrow> dropWhile P xs = []"
  by (induction xs) auto

lemma takeWhile_stop: "\<forall>x\<in>set xs. P x \<Longrightarrow> \<not> P y \<Longrightarrow> takeWhile P (xs @ y # ys) = xs"
  by (induction xs) auto

lemma dropWhile_stop: "\<forall>x\<in>set xs. P x \<Longrightarrow> \<not> P y \<Longrightarrow> dropWhile P (xs @ y # ys) = y # ys"
  by (induction xs) auto

lemma numericIdentifier_digit: "numericIdentifier a \<Longrightarrow> x \<in> set a \<Longrightarrow> isDigit x"
  by (simp add: numericIdentifier_def allDigits_def list_all_iff)

lemma main_split:
  assumes "numericIdentifier a" "numericIdentifier b" "numericIdentifier c"
  shows "splitOn CHR ''.'' (a @ ''.'' @ b @ ''.'' @ c) = [a, b, c]"
proof -
  have na: "CHR ''.'' \<notin> set a" using assms(1) isDigit_not_special numericIdentifier_digit by blast
  have nb: "CHR ''.'' \<notin> set b" using assms(2) isDigit_not_special numericIdentifier_digit by blast
  have nc: "CHR ''.'' \<notin> set c" using assms(3) isDigit_not_special numericIdentifier_digit by blast
  show ?thesis by (simp add: splitOn_append_sep na nb splitOn_absent nc)
qed

lemma main_chars:
  assumes "numericIdentifier a" "numericIdentifier b" "numericIdentifier c"
  shows "\<forall>x\<in>set (a @ ''.'' @ b @ ''.'' @ c). x \<noteq> CHR ''-'' \<and> x \<noteq> CHR ''+''"
proof -
  have "\<forall>x\<in>set a. x \<noteq> CHR ''-'' \<and> x \<noteq> CHR ''+''"
    using assms(1) isDigit_not_special numericIdentifier_digit by blast
  moreover have "\<forall>x\<in>set b. x \<noteq> CHR ''-'' \<and> x \<noteq> CHR ''+''"
    using assms(2) isDigit_not_special numericIdentifier_digit by blast
  moreover have "\<forall>x\<in>set c. x \<noteq> CHR ''-'' \<and> x \<noteq> CHR ''+''"
    using assms(3) isDigit_not_special numericIdentifier_digit by blast
  ultimately show ?thesis by (simp add: ball_Un)
qed

lemma stripV_digit: "numericIdentifier a \<Longrightarrow> stripV (a @ r) = a @ r"
proof -
  assume n: "numericIdentifier a"
  then obtain x xs where a: "a = x # xs" by (cases a) (auto simp: numericIdentifier_def allDigits_def)
  with n have "isDigit x" by (simp add: numericIdentifier_digit)
  then have "x \<noteq> CHR ''v''" by (simp add: isDigit_not_special)
  with a show ?thesis by (simp add: stripV_def)
qed

lemma matchFull_compose:
  assumes a: "numericIdentifier a" and b: "numericIdentifier b" and c: "numericIdentifier c"
    and p: "case pre of None \<Rightarrow> True | Some p \<Rightarrow> list_all prereleaseIdentifier (splitOn CHR ''.'' p)"
  shows "matchFull (a @ ''.'' @ b @ ''.'' @ c @ (case pre of None \<Rightarrow> [] | Some p \<Rightarrow> CHR ''-'' # p))
         = Some (a, b, c, pre, None)"
proof -
  let ?m = "a @ ''.'' @ b @ ''.'' @ c"
  let ?t = "a @ ''.'' @ b @ ''.'' @ c @ (case pre of None \<Rightarrow> [] | Some p \<Rightarrow> CHR ''-'' # p)"
  have t: "?t = ?m @ (case pre of None \<Rightarrow> [] | Some p \<Rightarrow> CHR ''-'' # p)" by simp
  have sv: "stripV ?t = ?t" using a by (rule stripV_digit)
  have "\<forall>x\<in>set ?t. isIdChar x \<or> x = CHR ''.''" using a b c p by (rule canonical_chars)
  then have noplus: "\<forall>x\<in>set ?t. x \<noteq> CHR ''+''"
    using isIdChar_not_special by blast
  have body: "takeWhile (\<lambda>x. x \<noteq> CHR ''+'') ?t = ?t" using noplus by (rule takeWhile_all)
  have rest: "dropWhile (\<lambda>x. x \<noteq> CHR ''+'') ?t = []" using noplus by (rule dropWhile_all)
  have mc: "\<forall>x\<in>set ?m. x \<noteq> CHR ''-''" using main_chars [OF a b c] by blast
  have sp: "splitOn CHR ''.'' ?m = [a, b, c]" using a b c by (rule main_split)
  show ?thesis
  proof (cases pre)
    case None
    have mainp: "takeWhile (\<lambda>x. x \<noteq> CHR ''-'') ?m = ?m" using mc by (rule takeWhile_all)
    have prep: "dropWhile (\<lambda>x. x \<noteq> CHR ''-'') ?m = []" using mc by (rule dropWhile_all)
    have t0: "?t = ?m" using None by simp
    from sv body rest have sv0: "stripV ?m = ?m"
      and body0: "takeWhile (\<lambda>x. x \<noteq> CHR ''+'') ?m = ?m"
      and rest0: "dropWhile (\<lambda>x. x \<noteq> CHR ''+'') ?m = []"
      unfolding t0 by simp_all
    have "matchFull ?m = Some (a, b, c, None, None)"
      unfolding matchFull_def Let_def sv0 body0 rest0 mainp prep sp
      using a b c by simp
    with None show ?thesis by simp
  next
    case (Some q)
    have mainp: "takeWhile (\<lambda>x. x \<noteq> CHR ''-'') (?m @ CHR ''-'' # q) = ?m"
      using mc by (rule takeWhile_stop) simp
    have prep: "dropWhile (\<lambda>x. x \<noteq> CHR ''-'') (?m @ CHR ''-'' # q) = CHR ''-'' # q"
      using mc by (rule dropWhile_stop) simp
    from p Some have pq: "list_all prereleaseIdentifier (splitOn CHR ''.'' q)" by simp
    have t': "?t = ?m @ CHR ''-'' # q" using Some by simp
    from sv body rest have sv': "stripV (?m @ CHR ''-'' # q) = ?m @ CHR ''-'' # q"
      and body': "takeWhile (\<lambda>x. x \<noteq> CHR ''+'') (?m @ CHR ''-'' # q) = ?m @ CHR ''-'' # q"
      and rest': "dropWhile (\<lambda>x. x \<noteq> CHR ''+'') (?m @ CHR ''-'' # q) = []"
      unfolding t' by simp_all
    have "matchFull (?m @ CHR ''-'' # q) = Some (a, b, c, Some q, None)"
      unfolding matchFull_def Let_def sv' body' rest' mainp prep sp
      using a b c pq by simp
    with Some show ?thesis by simp
  qed
qed

lemma showId_numberify: "prereleaseIdentifier i \<Longrightarrow> showId (numberify i) = i"
proof -
  assume p: "prereleaseIdentifier i"
  show ?thesis
  proof (cases "allDigits i \<and> natOfDigits i < MAX_SAFE_INTEGER")
    case True
    with p have "numericIdentifier i"
      by (auto simp: prereleaseIdentifier_def nonNumericIdentifier_def allDigits_def
          list_all_iff list_ex_iff)
    with True show ?thesis by (simp add: numberify_def showId_def showNat_natOfDigits)
  next
    case False
    then show ?thesis by (auto simp: numberify_def showId_def)
  qed
qed

lemma format_of_match:
  assumes a: "numericIdentifier a" and b: "numericIdentifier b" and c: "numericIdentifier c"
    and p: "case pre of None \<Rightarrow> True | Some p \<Rightarrow> list_all prereleaseIdentifier (splitOn CHR ''.'' p)"
    and s: "semverOfMatch (a, b, c, pre, bld) = Some sv"
  shows "format sv = a @ ''.'' @ b @ ''.'' @ c @ (case pre of None \<Rightarrow> [] | Some p \<Rightarrow> CHR ''-'' # p)"
proof -
  from s have mj: "major sv = natOfDigits a" and mn: "minor sv = natOfDigits b"
    and pt: "patch sv = natOfDigits c"
    and pr: "prerelease sv = (case pre of None \<Rightarrow> [] | Some p \<Rightarrow> map numberify (splitOn CHR ''.'' p))"
    by (auto simp: semverOfMatch_def split: if_splits)
  show ?thesis
  proof (cases pre)
    case None
    with mj mn pt pr a b c show ?thesis by (simp add: format_def showNat_natOfDigits)
  next
    case (Some q)
    with p have pq: "list_all prereleaseIdentifier (splitOn CHR ''.'' q)" by simp
    then have "map showId (map numberify (splitOn CHR ''.'' q)) = splitOn CHR ''.'' q"
      by (simp add: list_all_iff showId_numberify map_idI)
    then have j: "joinWith ''.'' (map showId (map numberify (splitOn CHR ''.'' q))) = q"
      by (simp add: joinWith_splitOn)
    have ne: "map numberify (splitOn CHR ''.'' q) \<noteq> []" by (simp add: splitOn_not_Nil)
    from Some mj mn pt pr a b c j ne show ?thesis
      by (simp add: format_def showNat_natOfDigits)
  qed
qed

lemma semverOfMatch_drop_build:
  "semverOfMatch (a, b, c, pre, bld) = Some sv \<Longrightarrow>
   semverOfMatch (a, b, c, pre, None) = Some (sv\<lparr>build := []\<rparr>)"
  by (auto simp: semverOfMatch_def split: if_splits)

lemma length_stripV: "length (stripV s) \<le> length s"
  by (cases s) (auto simp: stripV_def)

lemma parse_format:
  assumes "parse s = Some sv"
  shows "parse (format sv) = Some (sv\<lparr>build := []\<rparr>)
       \<and> semverNew (format sv) = Some (sv\<lparr>build := []\<rparr>)
       \<and> length (format sv) \<le> length s
       \<and> CHR ''+'' \<notin> set (format sv)"
proof -
  from parse_SomeD [OF assms] obtain m where l: "length s \<le> MAX_LENGTH"
    and m: "matchFull s = Some m" and sm: "semverOfMatch m = Some sv" by blast
  obtain a b c pre bld where mm: "m = (a, b, c, pre, bld)" by (cases m) auto
  note d = matchFull_SomeD [OF m [unfolded mm]]
  from d have a: "numericIdentifier a" and b: "numericIdentifier b" and c: "numericIdentifier c"
    and p: "case pre of None \<Rightarrow> True | Some p \<Rightarrow> list_all prereleaseIdentifier (splitOn CHR ''.'' p)"
    by simp_all
  let ?t = "a @ ''.'' @ b @ ''.'' @ c @ (case pre of None \<Rightarrow> [] | Some p \<Rightarrow> CHR ''-'' # p)"
  have f: "format sv = ?t" using a b c p sm [unfolded mm] by (rule format_of_match)
  have mt: "matchFull ?t = Some (a, b, c, pre, None)" using a b c p by (rule matchFull_compose)
  have st: "semverOfMatch (a, b, c, pre, None) = Some (sv\<lparr>build := []\<rparr>)"
    using sm [unfolded mm] by (rule semverOfMatch_drop_build)
  from d have "stripV s = ?t @ (case bld of None \<Rightarrow> [] | Some q \<Rightarrow> CHR ''+'' # q)" by simp
  then have "length ?t \<le> length (stripV s)" by simp
  with length_stripV [of s] have len: "length ?t \<le> length s" by simp
  with l have l': "length ?t \<le> MAX_LENGTH" by simp
  have pf: "parse ?t = Some (sv\<lparr>build := []\<rparr>)" using l' mt st by (rule parse_SomeI)
  have ns: "\<forall>x\<in>set ?t. \<not> isSpace x" using mt by (rule matchFull_noSpace)
  have "\<forall>x\<in>set ?t. isIdChar x \<or> x = CHR ''.''" using a b c p by (rule canonical_chars)
  then have np: "CHR ''+'' \<notin> set ?t" using isIdChar_not_special by blast
  from pf semverNew_eq_parse [OF ns] len np show ?thesis unfolding f by simp
qed

section \<open>The closest lower number\<close>







lemma closestAtMost_None: "closestAtMost ns t = None \<longleftrightarrow> (\<forall>n\<in>set ns. \<not> n \<le> t)"
proof (cases "filter (\<lambda>b. b \<le> t) ns")
  case Nil
  then show ?thesis by (simp add: closestAtMost_def filter_empty_conv)
next
  case (Cons x xs)
  then have "x \<in> set (filter (\<lambda>b. b \<le> t) ns)" by simp
  then have "x \<in> set ns \<and> x \<le> t" by simp
  with Cons show ?thesis by (auto simp: closestAtMost_def)
qed


section \<open>Normalization and the build numbers\<close>













section \<open>Comparison and the search\<close>
















section \<open>Totality\<close>

lemma formatAll_total:
  "list_all (\<lambda>v. parse v \<noteq> None) vs \<Longrightarrow>
   \<exists>fs. formatAll vs = Inr fs \<and> list_all (\<lambda>f. semverNew f \<noteq> None) fs"
proof (induction vs)
  case Nil
  then show ?case by simp
next
  case (Cons v vs)
  from Cons.prems obtain p where p: "parse v = Some p" by auto
  from Cons obtain fs where fs: "formatAll vs = Inr fs"
    and ok: "list_all (\<lambda>f. semverNew f \<noteq> None) fs" by auto
  from parse_format [OF p] have "semverNew (format p) \<noteq> None" by simp
  with p fs ok show ?case by simp
qed

lemma formatAll_error:
  "\<not> list_all (\<lambda>v. parse v \<noteq> None) vs \<Longrightarrow> formatAll vs = Inl TypeError"
proof (induction vs)
  case Nil
  then show ?case by simp
next
  case (Cons v vs)
  show ?case
  proof (cases "parse v")
    case None
    then show ?thesis by simp
  next
    case (Some p)
    with Cons show ?thesis by simp
  qed
qed

lemma maxLoop_total:
  "list_all (\<lambda>f. semverNew f \<noteq> None) vs \<Longrightarrow> \<exists>r. maxLoop lib test mx vs = Inr r"
proof (induction vs arbitrary: mx)
  case Nil
  then show ?case by simp
next
  case (Cons v vs)
  from Cons.prems obtain sv where sv: "semverNew v = Some sv" by auto
  from Cons have "\<And>mx. \<exists>r. maxLoop lib test mx vs = Inr r" by simp
  with sv show ?case by simp
qed

lemma primaryMatch_total:
  assumes "list_all (\<lambda>v. parse v \<noteq> None) versions"
  shows "\<exists>m. primaryMatch lib version versions = Inr m"
proof -
  from formatAll_total [OF assms] obtain fs where fs: "formatAll versions = Inr fs"
    and ok: "list_all (\<lambda>f. semverNew f \<noteq> None) fs" by blast
  show ?thesis
  proof (cases "rangeLE lib version")
    case None
    with fs show ?thesis by (simp add: primaryMatch_def maxSatisfying_def)
  next
    case (Some test)
    from maxLoop_total [OF ok] obtain r where "maxLoop lib test None fs = Inr r" by blast
    with fs Some show ?thesis by (simp add: primaryMatch_def maxSatisfying_def)
  qed
qed

lemma getClosest_total:
  assumes "list_all (\<lambda>v. parse v \<noteq> None) versions"
  shows "\<exists>r. getClosestProtoVersion lib raw versions = Inr r"
proof -
  from primaryMatch_total [OF assms] obtain m
    where "primaryMatch lib (nversion (normalizeVersion lib raw)) versions = Inr m" by blast
  then show ?thesis
    by (simp add: getClosestProtoVersion_def Let_def split: option.splits)
qed

lemma getClosest_error:
  assumes "\<not> list_all (\<lambda>v. parse v \<noteq> None) versions"
  shows "getClosestProtoVersion lib raw versions = Inl TypeError"
  using formatAll_error [OF assms]
  by (simp add: getClosestProtoVersion_def primaryMatch_def Let_def)

section \<open>The fallback\<close>








lemma normalize_fallback:
  assumes "splitOn CHR '' '' raw = version # rest"
    and "rest = [] \<or> clean (replaceFirst ''commit='' [] (hd rest)) = None"
  shows "normalizeVersion lib raw = \<lparr>nversion = version, nbuild = None, nwarned = True\<rparr>"
proof (cases rest)
  case Nil
  with assms(1) show ?thesis by (simp add: normalizeVersion_def)
next
  case (Cons c more)
  with assms show ?thesis by (simp add: normalizeVersion_def)
qed

section \<open>The expected commit token\<close>

text \<open>
  The commit token that the code expects has the version first and the
  hash last, \<^verbatim>\<open>commit=v<version>-<extra>-g<hash>\<close>: \<^verbatim>\<open>slice(0, 3)\<close> drops the hash,
  the marker \<^verbatim>\<open>beta\<close> is removed, and a numeric rest is the build number.
\<close>

lemma expected_format_prerelease:
  "normalizeVersion lib ''0.5.1-beta commit=v0.5.1-beta-rc2-gabcdef'' =
     \<lparr>nversion = ''0.5.1-rc2'', nbuild = None, nwarned = False\<rparr>
   \<and> getClosestProtoVersion lib ''0.5.1-beta commit=v0.5.1-beta-rc2-gabcdef''
        [''0.5.0'', ''0.5.1-beta.rc1'', ''0.5.1-beta.rc2'', ''0.5.2-beta.rc3'']
       = Inr (Some ''0.5.1-beta.rc2'')"
  by (simp add: model_defs)

lemma expected_format_build:
  "normalizeVersion lib ''0.5.2-beta commit=v0.5.2-beta-3-gabcdef'' =
     \<lparr>nversion = ''0.5.2'', nbuild = Some (ofNat 3), nwarned = False\<rparr>
   \<and> getClosestProtoVersion lib ''0.5.2-beta commit=v0.5.2-beta-3-gabcdef''
        [''0.5.2'', ''0.5.2+1'', ''0.5.2+5''] = Inr (Some ''0.5.2+1'')"
  by (simp add: model_defs)

section \<open>A commit token with the hash last\<close>





















section \<open>Properties of the resolver\<close>




text \<open>
  C2 as stated fails twice.  The version text is overwritten at line 202,
  before the later steps of the \<^verbatim>\<open>try\<close> block: for
  \<^verbatim>\<open>0.5.0 commit=0.6.0\<close> the read of the first prerelease identifier throws,
  the warning is printed, and the search goes on with \<^verbatim>\<open>0.6.0\<close>, not with the
  first token.  And a catalog entry that is not a version makes the call
  throw.
\<close>

theorem always_returns_counterexample:
  "nwarned (normalizeVersion someLib ''0.5.0 commit=0.6.0'')
   \<and> hd (splitOn CHR '' '' ''0.5.0 commit=0.6.0'') = ''0.5.0''
   \<and> nversion (normalizeVersion someLib ''0.5.0 commit=0.6.0'') = ''0.6.0''
   \<and> getClosestProtoVersion someLib ''0.5.0 commit=0.6.0'' [''0.5.0'', ''0.6.0'']
       = Inr (Some ''0.6.0'')
   \<and> getClosestProtoVersion someLib ''0.5.0 commit=0.6.0'' [''0.5.0'', ''latest'']
       = Inl TypeError"
  by (simp add: model_defs)

text \<open>
  C2, amended.  For every raw string and every catalog whose entries all
  parse as semantic versions, the call returns (absent or a string) and
  does not throw.  When the raw string has no second space-separated token,
  or \<^verbatim>\<open>semver.clean\<close> rejects that token without its \<^verbatim>\<open>commit=\<close>, the warning
  is printed and resolution continues with the first token verbatim and no
  build number.
\<close>

theorem always_returns:
  "(list_all (\<lambda>v. parse v \<noteq> None) versions \<longrightarrow>
      (\<exists>r. getClosestProtoVersion lib raw versions = Inr r))
   \<and> (splitOn CHR '' '' raw = version # rest
        \<and> (rest = [] \<or> clean (replaceFirst ''commit='' [] (hd rest)) = None) \<longrightarrow>
      normalizeVersion lib raw = \<lparr>nversion = version, nbuild = None, nwarned = True\<rparr>)"
  using getClosest_total [of versions lib raw] normalize_fallback [of raw version rest lib]
  by blast

theorem always_returns_witness:
  "list_all (\<lambda>v. parse v \<noteq> None) [''0.4.2'', ''0.5.0'']
   \<and> splitOn CHR '' '' ''0.5.0-beta commit=unknown'' = [''0.5.0-beta'', ''commit=unknown'']
   \<and> clean (replaceFirst ''commit='' [] ''commit=unknown'') = None
   \<and> normalizeVersion someLib ''0.5.0-beta commit=unknown'' =
        \<lparr>nversion = ''0.5.0-beta'', nbuild = None, nwarned = True\<rparr>
   \<and> getClosestProtoVersion someLib ''0.5.0-beta commit=unknown'' [''0.4.2'', ''0.5.0'']
        = Inr (Some ''0.4.2'')"
proof -
  let ?raw = "''0.5.0-beta commit=unknown''"
  have a: "list_all (\<lambda>v. parse v \<noteq> None) [''0.4.2'', ''0.5.0'']"
    by (simp add: version_defs string_defs)
  have s: "splitOn CHR '' '' ?raw = [''0.5.0-beta'', ''commit=unknown'']" by simp
  have c: "clean (replaceFirst ''commit='' [] ''commit=unknown'') = None"
    by (simp add: version_defs string_defs)
  from always_returns [of "[''0.4.2'', ''0.5.0'']" someLib ?raw "''0.5.0-beta''" "[''commit=unknown'']"]
    a s c
  have n: "normalizeVersion someLib ?raw = \<lparr>nversion = ''0.5.0-beta'', nbuild = None, nwarned = True\<rparr>"
    by simp
  have r: "getClosestProtoVersion someLib ?raw [''0.4.2'', ''0.5.0''] = Inr (Some ''0.4.2'')"
    by (simp add: model_defs)
  from a s c n r show ?thesis by simp
qed

text \<open>
  C3 as stated fails.  Line 230 applies \<^verbatim>\<open>semver.parse(v).format()\<close> to every
  entry of the catalog; for an entry that is not a semantic version
  \<^verbatim>\<open>semver.parse\<close> gives null and the call throws a TypeError, outside the
  \<^verbatim>\<open>try\<close> block.
\<close>

theorem malformed_candidate_counterexample:
  "getClosestProtoVersion someLib ''0.5.2-beta commit=v0.5.2-beta''
     [''0.5.0'', ''latest'', ''0.5.2''] = Inl TypeError"
  by (simp add: model_defs)

text \<open>
  C3, amended.  Selection completes without throwing exactly when every
  entry of the catalog parses as a semantic version; a catalog with an
  entry that does not parse makes the whole call throw a TypeError, and no
  entry is excluded.
\<close>

theorem malformed_candidate:
  "(list_all (\<lambda>v. parse v \<noteq> None) versions \<longrightarrow>
      (\<exists>r. getClosestProtoVersion lib raw versions = Inr r))
   \<and> (\<not> list_all (\<lambda>v. parse v \<noteq> None) versions \<longrightarrow>
      getClosestProtoVersion lib raw versions = Inl TypeError)"
  using getClosest_total [of versions lib raw] getClosest_error [of versions lib raw]
  by blast

theorem malformed_candidate_witness:
  "list_all (\<lambda>v. parse v \<noteq> None) [''0.5.0'', ''0.5.2'']
   \<and> getClosestProtoVersion someLib ''0.5.2-beta commit=v0.5.2-beta'' [''0.5.0'', ''0.5.2'']
       = Inr (Some ''0.5.2'')
   \<and> \<not> list_all (\<lambda>v. parse v \<noteq> None) [''0.5.0'', ''README'']
   \<and> getClosestProtoVersion someLib ''0.5.2-beta commit=v0.5.2-beta'' [''0.5.0'', ''README'']
       = Inl TypeError"
proof -
  have a: "list_all (\<lambda>v. parse v \<noteq> None) [''0.5.0'', ''0.5.2'']"
    by (simp add: version_defs string_defs)
  have b: "\<not> list_all (\<lambda>v. parse v \<noteq> None) [''0.5.0'', ''README'']"
    by (simp add: version_defs string_defs)
  from malformed_candidate [of "[''0.5.0'', ''0.5.2'']" someLib "''0.5.2-beta commit=v0.5.2-beta''"] a
  obtain r where r: "getClosestProtoVersion someLib ''0.5.2-beta commit=v0.5.2-beta''
                       [''0.5.0'', ''0.5.2''] = Inr r" by blast
  have c: "getClosestProtoVersion someLib ''0.5.2-beta commit=v0.5.2-beta'' [''0.5.0'', ''0.5.2'']
             = Inr (Some ''0.5.2'')"
    by (simp add: model_defs)
  from malformed_candidate [of "[''0.5.0'', ''README'']" someLib "''0.5.2-beta commit=v0.5.2-beta''"] b
  have d: "getClosestProtoVersion someLib ''0.5.2-beta commit=v0.5.2-beta'' [''0.5.0'', ''README'']
             = Inl TypeError" by blast
  from a b c d show ?thesis by simp
qed

text \<open>
  C4 as stated fails.  The commit token \<^verbatim>\<open>commit=abcdef-0.5.1-beta.rc2\<close> does
  not start with a version once \<^verbatim>\<open>commit=\<close> is removed, so \<^verbatim>\<open>semver.clean\<close>
  gives null and the first token \<^verbatim>\<open>0.5.1-beta\<close> is the version text; both
  \<^verbatim>\<open>0.5.1-beta.rc1\<close> and \<^verbatim>\<open>0.5.1-beta.rc2\<close> are above it.
\<close>

theorem example_rc2_counterexample:
  "getClosestProtoVersion someLib ''0.5.1-beta commit=abcdef-0.5.1-beta.rc2''
     [''0.5.0'', ''0.5.1-beta.rc1'', ''0.5.1-beta.rc2'', ''0.5.2-beta.rc3'']
   \<noteq> Inr (Some ''0.5.1-beta.rc2'')"
  by (simp add: model_defs)

text \<open>
  C4, amended.  For the raw input \<^verbatim>\<open>0.5.1-beta commit=abcdef-0.5.1-beta.rc2\<close> and
  the catalog 0.5.0, 0.5.1-beta.rc1, 0.5.1-beta.rc2, 0.5.2-beta.rc3 the version
  text is \<^verbatim>\<open>0.5.1-beta\<close> with no build number, and the result is \<^verbatim>\<open>0.5.0\<close>.
\<close>

theorem example_rc2_amended:
  "normalizeVersion lib ''0.5.1-beta commit=abcdef-0.5.1-beta.rc2'' =
     \<lparr>nversion = ''0.5.1-beta'', nbuild = None, nwarned = True\<rparr>
   \<and> getClosestProtoVersion lib ''0.5.1-beta commit=abcdef-0.5.1-beta.rc2''
     [''0.5.0'', ''0.5.1-beta.rc1'', ''0.5.1-beta.rc2'', ''0.5.2-beta.rc3'']
   = Inr (Some ''0.5.0'')"
  by (simp add: model_defs)

theorem example_rc2_amended_witness:
  "getClosestProtoVersion someLib ''0.5.1-beta commit=abcdef-0.5.1-beta.rc2''
     [''0.5.0'', ''0.5.1-beta.rc1'', ''0.5.1-beta.rc2'', ''0.5.2-beta.rc3'']
   = Inr (Some ''0.5.0'')"
  using example_rc2_amended [of someLib] by (rule conjunct2)

text \<open>
  C5 as stated fails, for the same reason: \<^verbatim>\<open>abcdef-0.5.2-3\<close> is not a version,
  normalization falls back to the first token and no build number is set.
\<close>

theorem example_build_counterexample:
  "\<not> (nbuild (normalizeVersion someLib ''0.5.2 commit=abcdef-0.5.2-3'') = Some (ofNat 3)
      \<and> getClosestProtoVersion someLib ''0.5.2 commit=abcdef-0.5.2-3''
            [''0.5.2'', ''0.5.2+1'', ''0.5.2+5''] = Inr (Some ''0.5.2+1''))"
  by (simp add: model_defs)

text \<open>
  C5, amended.  For the raw input \<^verbatim>\<open>0.5.2 commit=abcdef-0.5.2-3\<close> and the catalog
  0.5.2, 0.5.2+1, 0.5.2+5 normalization yields the version text \<^verbatim>\<open>0.5.2\<close> with
  no build number, and the result is \<^verbatim>\<open>0.5.2\<close>.
\<close>

theorem example_build_amended:
  "normalizeVersion lib ''0.5.2 commit=abcdef-0.5.2-3'' =
     \<lparr>nversion = ''0.5.2'', nbuild = None, nwarned = True\<rparr>
   \<and> getClosestProtoVersion lib ''0.5.2 commit=abcdef-0.5.2-3''
        [''0.5.2'', ''0.5.2+1'', ''0.5.2+5''] = Inr (Some ''0.5.2'')"
  by (simp add: model_defs)

theorem example_build_amended_witness:
  "getClosestProtoVersion someLib ''0.5.2 commit=abcdef-0.5.2-3''
        [''0.5.2'', ''0.5.2+1'', ''0.5.2+5''] = Inr (Some ''0.5.2'')"
  using example_build_amended [of someLib] by (rule conjunct2)




text \<open>
  C7.  A raw string without a space has no commit token: the version text
  is the raw string itself, unchanged, and there is no build number.  (The
  read of the missing commit token throws inside the \<^verbatim>\<open>try\<close> block, so the
  warning is printed.)  A canonical semantic version contains no space.
\<close>

theorem normalize_without_commit:
  "CHR '' '' \<notin> set v \<Longrightarrow>
   normalizeVersion lib v = \<lparr>nversion = v, nbuild = None, nwarned = True\<rparr>"
  by (simp add: normalizeVersion_def splitOn_absent)

theorem normalize_without_commit_witness:
  "CHR '' '' \<notin> set ''0.5.1-beta.rc2'' \<and>
   normalizeVersion someLib ''0.5.1-beta.rc2'' =
     \<lparr>nversion = ''0.5.1-beta.rc2'', nbuild = None, nwarned = True\<rparr>"
  using normalize_without_commit [of "''0.5.1-beta.rc2''" someLib] by simp




text \<open>
  C9.  With an empty catalog the result is absent, whatever the raw version
  string is: the search has nothing to return and the build refinement has
  no candidate.
\<close>

theorem empty_catalog_absent:
  "getClosestProtoVersion lib raw [] = Inr None"
  by (simp add: getClosestProtoVersion_def primaryMatch_def maxSatisfying_def
      buildNumbers_def closestLower_def Let_def split: option.splits)

theorem empty_catalog_absent_witness:
  "getClosestProtoVersion someLib ''0.5.2-beta commit=v0.5.2-beta-3-gabcdef'' [] = Inr None"
  by (rule empty_catalog_absent)

text \<open>
  C10.  A closest build number of 0 is not applied: the replacement is
  guarded by \<^verbatim>\<open>closestMatch > 0\<close>, so the result is the primary match.
\<close>

theorem build_zero_not_applied:
  "nbuild (normalizeVersion lib raw) = Some val \<Longrightarrow>
   closestLower lib (buildNumbers lib (nversion (normalizeVersion lib raw)) versions) val = Some (ofNat 0) \<Longrightarrow>
   getClosestProtoVersion lib raw versions = primaryMatch lib (nversion (normalizeVersion lib raw)) versions"
  by (simp add: getClosestProtoVersion_def Let_def ofNat_def split: sum.splits)

theorem build_zero_not_applied_witness:
  "nbuild (normalizeVersion someLib ''0.5.2-beta commit=v0.5.2-beta-3-gabcdef'') = Some (ofNat 3)
   \<and> closestLower someLib
        (buildNumbers someLib (nversion (normalizeVersion someLib ''0.5.2-beta commit=v0.5.2-beta-3-gabcdef''))
           [''0.5.2'', ''0.5.2+0''])
        (ofNat 3) = Some (ofNat 0)
   \<and> getClosestProtoVersion someLib ''0.5.2-beta commit=v0.5.2-beta-3-gabcdef''
        [''0.5.2'', ''0.5.2+0''] = Inr (Some ''0.5.2'')"
proof -
  let ?raw = "''0.5.2-beta commit=v0.5.2-beta-3-gabcdef''"
  let ?cat = "[''0.5.2'', ''0.5.2+0'']"
  have n: "normalizeVersion someLib ?raw =
             \<lparr>nversion = ''0.5.2'', nbuild = Some (ofNat 3), nwarned = False\<rparr>"
    by (simp add: model_defs)
  have b: "nbuild (normalizeVersion someLib ?raw) = Some (ofNat 3)"
    by (simp add: n)
  have c: "closestLower someLib (buildNumbers someLib (nversion (normalizeVersion someLib ?raw)) ?cat)
             (ofNat 3) = Some (ofNat 0)"
    by (simp add: n) (simp add: model_defs)
  have p: "primaryMatch someLib (nversion (normalizeVersion someLib ?raw)) ?cat = Inr (Some ''0.5.2'')"
    by (simp add: n) (simp add: model_defs)
  from build_zero_not_applied [OF b c] p b c show ?thesis
    by simp
qed

end
